theory Spec2Isabelle
  imports Main "HOL-Library.Sublist"
begin

section \<open>Text\<close>

text \<open>
  A Python \<open>str\<close> is modelled as a \<^typ>\<open>string\<close> whose characters are the code points
  0..255. The two Unicode tables the scripts consult, white space (\<open>\s\<close>, \<open>str.strip\<close>) and
  lower case (\<open>str.lower\<close>), are written out for that range. A file's content is the text
  that \<open>read\<close> returns, after decoding and newline translation.
\<close>

abbreviation nl :: char where
  "nl \<equiv> CHR 0x0A"

abbreviation quote :: char where
  "quote \<equiv> CHR 0x22"

definition isspace :: "char \<Rightarrow> bool" where
  "isspace c =
     (let n = (of_char c :: nat)
      in (9 \<le> n \<and> n \<le> 13) \<or> (28 \<le> n \<and> n \<le> 32) \<or> n = 133 \<or> n = 160)"

definition lower_char :: "char \<Rightarrow> char" where
  "lower_char c =
     (let n = (of_char c :: nat)
      in if (65 \<le> n \<and> n \<le> 90) \<or> (192 \<le> n \<and> n \<le> 222 \<and> n \<noteq> 215)
         then char_of (n + 32) else c)"

definition lower :: "string \<Rightarrow> string" where
  "lower s = map lower_char s"

definition strip :: "string \<Rightarrow> string" where
  "strip s = rev (dropWhile isspace (rev (dropWhile isspace s)))"

text \<open>\<open>s.replace(old, new, 1)\<close>: the first occurrence, scanning from the left.\<close>

fun replace_first :: "string \<Rightarrow> string \<Rightarrow> string \<Rightarrow> string" where
  "replace_first old new [] = (if old = [] then new else [])"
| "replace_first old new (c # cs) =
     (if prefix old (c # cs) then new @ drop (length old) (c # cs)
      else c # replace_first old new cs)"

text \<open>\<open>str(n)\<close> for a non-negative integer.\<close>

fun str_nat :: "nat \<Rightarrow> string" where
  "str_nat n =
     (if n < 10 then [char_of (48 + n)]
      else str_nat (n div 10) @ [char_of (48 + n mod 10)])"

declare str_nat.simps [simp del]

section \<open>The tab pattern\<close>

text \<open>
  \<^verbatim>\<open>^=== "([^"]+)"\s*\n((?:^[ \t]+.*\n*)*)\<close> under \<open>re.MULTILINE\<close>, element by
  element, in the order a backtracking matcher tries the alternatives.
\<close>

text \<open>\<^verbatim>\<open>\s*\n\<close>: the greedy star first, the newline where the star gives up.\<close>

fun ws_nl :: "string \<Rightarrow> string option" where
  "ws_nl [] = None"
| "ws_nl (c # cs) =
     (if isspace c then
        (case ws_nl cs of
           Some r \<Rightarrow> Some r
         | None \<Rightarrow> if c = nl then Some cs else None)
      else None)"

definition is_blank :: "char \<Rightarrow> bool" where
  "is_blank c = (c = CHR '' '' \<or> c = CHR 0x09)"

text \<open>
  \<^verbatim>\<open>(?:^[ \t]+.*\n*)*\<close>: \<open>bol\<close> says whether the position follows a newline. Each round
  takes the blanks, the rest of the line and every newline after it; the result is the
  text left after the last round.
\<close>

function tab_body :: "bool \<Rightarrow> string \<Rightarrow> string" where
  "tab_body bol s =
     (if bol \<and> s \<noteq> [] \<and> is_blank (hd s) then
        (let r1 = dropWhile (\<lambda>c. c \<noteq> nl) (dropWhile is_blank s);
             r2 = dropWhile (\<lambda>c. c = nl) r1
         in tab_body (r1 \<noteq> r2) r2)
      else s)"
  by pat_completeness auto
termination
proof (relation "measure (\<lambda>(bol, s). length s)")
  show "wf (measure (\<lambda>(bol, s). length s))" by simp
next
  fix bol :: bool and s r1 r2 :: string
  assume a: "bol \<and> s \<noteq> [] \<and> is_blank (hd s)"
    and r1: "r1 = dropWhile (\<lambda>c. c \<noteq> nl) (dropWhile is_blank s)"
    and r2: "r2 = dropWhile (\<lambda>c. c = nl) r1"
  from a obtain c cs where s: "s = c # cs" and c: "is_blank c"
    by (cases s) auto
  have "length (dropWhile is_blank s) \<le> length cs"
    using c by (simp add: s length_dropWhile_le)
  moreover have "length r2 \<le> length r1"
    by (simp add: r2 length_dropWhile_le)
  moreover have "length r1 \<le> length (dropWhile is_blank s)"
    by (simp add: r1 length_dropWhile_le)
  ultimately have "length r2 < length s"
    by (simp add: s)
  then show "((r1 \<noteq> r2, r2), (bol, s)) \<in> measure (\<lambda>(bol, s). length s)"
    by simp
qed

declare tab_body.simps [simp del]

text \<open>
  One attempt at a position: the line anchor, the literal, the name up to the next quote
  (at least one character), the closing quote, the white space up to a newline, the body.
  The result is group 1 and the text after the match.
\<close>

definition match_at :: "bool \<Rightarrow> string \<Rightarrow> (string \<times> string) option" where
  \<open>match_at bol s =
     (if bol \<and> prefix ''=== "'' s then
        (let r0 = drop 5 s;
             name = takeWhile (\<lambda>c. c \<noteq> quote) r0;
             r1 = dropWhile (\<lambda>c. c \<noteq> quote) r0
         in if name = [] \<or> r1 = [] then None
            else (case ws_nl (tl r1) of
                    None \<Rightarrow> None
                  | Some r2 \<Rightarrow> Some (name, tab_body True r2)))
      else None)\<close>

record match =
  m_start :: nat
  group0 :: string
  group1 :: string


text \<open>
  \<open>finditer\<close>: try the pattern at each position from the left; after a match the scan
  resumes at its end, otherwise one character further.
\<close>

function finditer_from :: "nat \<Rightarrow> bool \<Rightarrow> string \<Rightarrow> match list" where
  "finditer_from pos bol s =
     (case match_at bol s of
        Some (name, rest) \<Rightarrow>
          (let g0 = take (length s - length rest) s
           in \<lparr>m_start = pos, group0 = g0, group1 = name\<rparr>
              # finditer_from (pos + length g0) (last g0 = nl) rest)
      | None \<Rightarrow>
          (case s of
             [] \<Rightarrow> []
           | c # cs \<Rightarrow> finditer_from (Suc pos) (c = nl) cs))"
  by pat_completeness auto
termination
proof (relation "measure (\<lambda>(pos, bol, s). length s)")
  show "wf (measure (\<lambda>(pos, bol, s). length s))" by simp
next
  fix pos :: nat and bol :: bool and s :: string and x2 name rest g0
  assume m: "match_at bol s = Some x2" and x2: "(name, rest) = x2"
    and g0: "g0 = take (length s - length rest) s"
  have ws: "length r \<le> length cs" if "ws_nl cs = Some r" for cs r
    using that by (induction cs) (auto split: if_splits option.splits)
  have tb: "length (tab_body b t) \<le> length t" for b t
  proof (induction b t rule: tab_body.induct)
    case (1 bol s)
    show ?case
    proof (cases "bol \<and> s \<noteq> [] \<and> is_blank (hd s)")
      case True
      define r1 where "r1 = dropWhile (\<lambda>c. c \<noteq> nl) (dropWhile is_blank s)"
      define r2 where "r2 = dropWhile (\<lambda>c. c = nl) r1"
      have "length (tab_body (r1 \<noteq> r2) r2) \<le> length r2"
        using "1.IH" [OF True r1_def r2_def] .
      moreover have "length r2 \<le> length s"
        unfolding r2_def r1_def
        by (meson length_dropWhile_le order_trans)
      moreover have "tab_body bol s = tab_body (r1 \<noteq> r2) r2"
        using True by (subst tab_body.simps) (simp add: r1_def r2_def Let_def)
      ultimately show ?thesis by simp
    next
      case False
      then show ?thesis by (subst tab_body.simps) auto
    qed
  qed
  from m x2 obtain r1 r2 where p: \<open>prefix ''=== "'' s\<close>
    and r1: "r1 = dropWhile (\<lambda>c. c \<noteq> quote) (drop 5 s)"
    and r2: "ws_nl (tl r1) = Some r2" and rest: "rest = tab_body True r2"
    by (auto simp: match_at_def Let_def split: if_splits option.splits)
  from p have "5 \<le> length s"
    by (auto simp: prefix_def)
  moreover have "length r1 \<le> length s - 5"
    unfolding r1 by (metis length_dropWhile_le length_drop)
  moreover have "length r2 \<le> length r1"
    using ws [OF r2] by (cases r1) auto
  moreover have "length rest \<le> length r2"
    unfolding rest by (rule tb)
  ultimately have "length rest < length s" by simp
  then show "((pos + length g0, last g0 = nl, rest), (pos, bol, s))
              \<in> measure (\<lambda>(pos, bol, s). length s)"
    by simp
qed simp

declare finditer_from.simps [simp del]

definition finditer :: "string \<Rightarrow> match list" where
  "finditer content = finditer_from 0 True content"

text \<open>\<^verbatim>\<open>re.sub(r"\n{4,}", "\n\n\n", s)\<close>: a run of four or more newlines, taken whole.\<close>

function sub_newlines :: "string \<Rightarrow> string" where
  "sub_newlines [] = []"
| "sub_newlines (c # cs) =
     (let n = length (takeWhile (\<lambda>x. x = nl) (c # cs))
      in if 4 \<le> n then [nl, nl, nl] @ sub_newlines (drop n (c # cs))
         else c # sub_newlines cs)"
  by pat_completeness auto
termination
  by (relation "measure length") auto

declare sub_newlines.simps(2) [simp del]

section \<open>Paths and files\<close>

text \<open>
  \<open>pathlib.Path\<close> in its POSIX flavour: a root and the components of the path.
  \<open>Path\<close> drops empty components and single dots.
\<close>

record path =
  anchor :: string
  parts :: "string list"

fun split_sep :: "string \<Rightarrow> string list" where
  "split_sep [] = [[]]"
| "split_sep (c # cs) =
     (if c = CHR ''/'' then [] # split_sep cs
      else (case split_sep cs of
              [] \<Rightarrow> [[c]]
            | x # xs \<Rightarrow> (c # x) # xs))"

definition Path :: "string \<Rightarrow> path" where
  "Path p =
     (let (root, rel) =
        (if take 1 p \<noteq> ''/'' then ([], p)
         else if take 1 (drop 1 p) \<noteq> ''/'' \<or> take 1 (drop 2 p) = ''/'' then (''/'', drop 1 p)
         else (take 2 p, drop 2 p))
      in \<lparr>anchor = root, parts = filter (\<lambda>x. x \<noteq> [] \<and> x \<noteq> ''.'') (split_sep rel)\<rparr>)"

definition path_name :: "path \<Rightarrow> string" where
  "path_name p = (if parts p = [] then [] else last (parts p))"

text \<open>\<open>name.rfind('.')\<close>\<close>

definition rfind_dot :: "string \<Rightarrow> nat option" where
  "rfind_dot name =
     (if CHR ''.'' \<in> set name
      then Some (length name - 1 - length (takeWhile (\<lambda>c. c \<noteq> CHR ''.'') (rev name)))
      else None)"

definition path_suffix :: "path \<Rightarrow> string" where
  "path_suffix p =
     (let name = path_name p
      in case rfind_dot name of
           None \<Rightarrow> []
         | Some i \<Rightarrow> if 0 < i \<and> i < length name - 1 then drop i name else [])"

definition path_stem :: "path \<Rightarrow> string" where
  "path_stem p =
     (let name = path_name p
      in case rfind_dot name of
           None \<Rightarrow> name
         | Some i \<Rightarrow> if 0 < i \<and> i < length name - 1 then take i name else name)"

datatype pyerror =
  IndexError | ValueError | TypeError | FileNotFoundError | IsADirectoryError
  | CalledProcessError
  | SystemExit nat

definition with_name :: "path \<Rightarrow> string \<Rightarrow> pyerror + path" where
  "with_name p name =
     (if path_name p = [] then Inl ValueError
      else if name = [] \<or> CHR ''/'' \<in> set name \<or> name = ''.'' then Inl ValueError
      else Inr (p\<lparr>parts := butlast (parts p) @ [name]\<rparr>))"

fun join :: "string \<Rightarrow> string list \<Rightarrow> string" where
  "join sep [] = []"
| "join sep [x] = x"
| "join sep (x # y # ys) = x @ sep @ join sep (y # ys)"

definition path_str :: "path \<Rightarrow> string" where
  "path_str p =
     (if anchor p = [] \<and> parts p = [] then ''.'' else anchor p @ join ''/'' (parts p))"

text \<open>
  The file system: what is at each path, a file with its text or a directory. A call
  returns the file system it leaves, the lines it printed, and its value or the exception
  it raised.
\<close>

datatype node = File string | Dir

type_synonym fs = "path \<Rightarrow> node option"

type_synonym 'a call = "fs \<times> string list \<times> (pyerror + 'a)"

section \<open>Extracting one tab section\<close>

text \<open>The loop over the reversed matches.\<close>

fun remove_sections :: "string \<Rightarrow> match list \<Rightarrow> string \<Rightarrow> string" where
  "remove_sections target [] result_content = result_content"
| "remove_sections target (m # ms) result_content =
     (if lower (group1 m) = target then remove_sections target ms result_content
      else remove_sections target ms (replace_first (group0 m) [] result_content))"

definition kept_sections :: "string \<Rightarrow> match list \<Rightarrow> match list" where
  "kept_sections target matches = filter (\<lambda>m. lower (group1 m) = target) matches"

definition extract_sections_from_markdown_file :: "fs \<Rightarrow> string \<Rightarrow> string \<Rightarrow> unit call" where
  "extract_sections_from_markdown_file fs file_path section_name =
     (let file = Path file_path
      in case fs file of
           None \<Rightarrow> (fs, [''File '' @ file_path @ '' does not exist.''], Inr ())
         | Some node \<Rightarrow>
             if path_suffix file \<noteq> ''.md''
             then (fs, [''File '' @ file_path @ '' is not a markdown file.''], Inr ())
             else (case node of
                     Dir \<Rightarrow> (fs, [], Inl IsADirectoryError)
                   | File content \<Rightarrow>
                       (let matches = finditer content;
                            target = lower section_name
                        in if matches = []
                           then (fs, [''No tab sections found in '' @ file_path], Inr ())
                           else
                             (let result_content = remove_sections target (rev matches) content;
                                  kept = kept_sections target matches
                              in if kept = []
                                 then (fs, [''No sections found for '' @ [CHR 0x27] @ section_name
                                              @ [CHR 0x27] @ '' in '' @ file_path], Inr ())
                                 else
                                   (let result_content = sub_newlines result_content
                                    in case with_name file (path_stem file @ ''-''
                                             @ lower section_name @ path_suffix file) of
                                         Inl e \<Rightarrow> (fs, [], Inl e)
                                       | Inr output_file \<Rightarrow>
                                           (case fs output_file of
                                              Some Dir \<Rightarrow> (fs, [], Inl IsADirectoryError)
                                            | _ \<Rightarrow>
                                                (fs(output_file \<mapsto> File result_content),
                                                 [''Extracted '' @ [CHR 0x27] @ section_name
                                                    @ [CHR 0x27] @ '' sections written to: ''
                                                    @ path_str output_file,
                                                  ''Kept '' @ str_nat (length kept)
                                                    @ '' section(s), removed ''
                                                    @ str_nat (length matches - length kept)
                                                    @ '' section(s)''],
                                                 Inr ())))))))"

section \<open>Reformatting\<close>

text \<open>\<open>s.replace(old, new)\<close>: every occurrence, left to right, without overlap.\<close>

function replace_all :: "string \<Rightarrow> string \<Rightarrow> string \<Rightarrow> string" where
  "replace_all old new s =
     (if old = [] then new @ concat (map (\<lambda>c. c # new) s)
      else (case s of
              [] \<Rightarrow> []
            | c # cs \<Rightarrow>
                if prefix old s then new @ replace_all old new (drop (length old) s)
                else c # replace_all old new cs))"
  by pat_completeness auto
termination
  by (relation "measure (\<lambda>(old, new, s). length s)") auto

declare replace_all.simps [simp del]

text \<open>\<open>readlines\<close>: the lines of a text, each with its newline.\<close>

fun readlines :: "string \<Rightarrow> string list" where
  "readlines [] = []"
| "readlines (c # cs) =
     (if c = nl then [c] # readlines cs
      else (case readlines cs of
              [] \<Rightarrow> [[c]]
            | l # ls \<Rightarrow> (c # l) # ls))"

text \<open>\<open>int(c)\<close> for a single character.\<close>

definition int_char :: "char \<Rightarrow> pyerror + nat" where
  "int_char c =
     (let n = (of_char c :: nat)
      in if 48 \<le> n \<and> n \<le> 57 then Inr (n - 48) else Inl ValueError)"

record scan_state =
  in_code_block :: bool
  in_tab_block :: bool

text \<open>The blocks of the loop body, in the order of the source.\<close>

definition dedent_tab :: "string \<times> scan_state \<Rightarrow> string \<times> scan_state" where
  "dedent_tab = (\<lambda>(line, st).
     if in_tab_block st then
       (if prefix ''    '' line then (drop 4 line, st)
        else (line, st\<lparr>in_tab_block := False\<rparr>))
     else (line, st))"

definition convert_heading ::
  "string \<Rightarrow> string \<times> scan_state \<Rightarrow> pyerror + string \<times> scan_state" where
  "convert_heading replace_tab_with_header = (\<lambda>(line, st).
     if prefix ''==='' line then
       (if prefix ''h'' replace_tab_with_header then
          (if length replace_tab_with_header < 2 then Inl IndexError
           else (case int_char (replace_tab_with_header ! 1) of
                   Inl e \<Rightarrow> Inl e
                 | Inr level \<Rightarrow>
                     Inr (replace_all [quote] []
                            (replace_all ''=== '' (replicate level CHR ''#'' @ '' '') line),
                          st\<lparr>in_tab_block := True\<rparr>)))
        else Inr (replace_all [quote] []
                    (replace_all ''=== '' (strip replace_tab_with_header @ '' '') line),
                  st\<lparr>in_tab_block := True\<rparr>))
     else Inr (line, st))"

definition open_fence :: "string \<times> scan_state \<Rightarrow> string \<times> scan_state" where
  "open_fence = (\<lambda>(line, st).
     if prefix ''```py'' line \<and> \<not> prefix ''```python'' line
     then (replace_all ''```py'' ''```python'' line, st\<lparr>in_code_block := True\<rparr>)
     else (line, st))"

definition close_fence :: "string \<times> scan_state \<Rightarrow> string \<times> scan_state" where
  "close_fence = (\<lambda>(line, st).
     if in_code_block st then
       (if prefix ''```'' (strip line) then (line, st\<lparr>in_code_block := False\<rparr>)
        else (line, st))
     else (line, st))"

definition remove_markers :: "string \<times> scan_state \<Rightarrow> string \<times> scan_state" where
  "remove_markers = (\<lambda>(line, st).
     if \<not> in_code_block st then
       (if sublist ''--8<--'' line then ([], st) else (line, st))
     else (line, st))"

definition reformat_line ::
  "string \<Rightarrow> scan_state \<Rightarrow> string \<Rightarrow> pyerror + string \<times> scan_state" where
  "reformat_line replace_tab_with_header st line =
     (if length (strip line) = 0 then Inr (line, st)
      else (case convert_heading replace_tab_with_header (dedent_tab (line, st)) of
              Inl e \<Rightarrow> Inl e
            | Inr x \<Rightarrow> Inr (remove_markers (close_fence (open_fence x)))))"

fun reformat_lines :: "string \<Rightarrow> scan_state \<Rightarrow> string list \<Rightarrow> pyerror + string list" where
  "reformat_lines replace_tab_with_header st [] = Inr []"
| "reformat_lines replace_tab_with_header st (line # lines) =
     (case reformat_line replace_tab_with_header st line of
        Inl e \<Rightarrow> Inl e
      | Inr (line', st') \<Rightarrow>
          (case reformat_lines replace_tab_with_header st' lines of
             Inl e \<Rightarrow> Inl e
           | Inr lines' \<Rightarrow> Inr (line' # lines')))"

text \<open>The text read, scanned from the initial state, and the text written.\<close>

definition reformat_text :: "string \<Rightarrow> string \<Rightarrow> pyerror + string" where
  "reformat_text replace_tab_with_header content =
     (case reformat_lines replace_tab_with_header
             \<lparr>in_code_block = False, in_tab_block = False\<rparr> (readlines content) of
        Inl e \<Rightarrow> Inl e
      | Inr lines \<Rightarrow> Inr (concat lines))"

section \<open>External commands\<close>

text \<open>\<open>s.split()\<close>: the words between runs of white space.\<close>

function split_ws :: "string \<Rightarrow> string list" where
  "split_ws s =
     (let s1 = dropWhile isspace s
      in if s1 = [] then []
         else takeWhile (\<lambda>c. \<not> isspace c) s1
              # split_ws (dropWhile (\<lambda>c. \<not> isspace c) s1))"
  by pat_completeness auto
termination
proof (relation "measure length")
  show "wf (measure length)" by simp
next
  fix s s1 :: string
  assume s1: "s1 = dropWhile isspace s" and ne: "s1 \<noteq> []"
  from ne obtain c cs where c: "s1 = c # cs"
    by (cases s1) simp_all
  have "\<not> isspace (hd (dropWhile isspace s))"
    using ne unfolding s1 by (rule hd_dropWhile)
  then have "\<not> isspace c"
    using c s1 by simp
  then have "length (dropWhile (\<lambda>c. \<not> isspace c) s1) \<le> length cs"
    by (simp add: c length_dropWhile_le)
  moreover have "length s1 \<le> length s"
    by (simp add: s1 length_dropWhile_le)
  ultimately show "(dropWhile (\<lambda>c. \<not> isspace c) s1, s) \<in> measure length"
    by (simp add: c)
qed

declare split_ws.simps [simp del]

definition expand_space :: "string list \<Rightarrow> string list" where
  "expand_space lst = concat (map split_ws lst)"

text \<open>
  The programs that \<open>subprocess.run\<close> starts are not part of the scripts: \<open>ext\<close> gives,
  for a command line and a file system, the file system the program leaves and whether it
  exited with status 0. With \<open>check=True\<close> any other status raises.
\<close>

type_synonym runner = "string list \<Rightarrow> fs \<Rightarrow> fs \<times> bool"

definition run_command :: "runner \<Rightarrow> string list \<Rightarrow> bool \<Rightarrow> fs \<Rightarrow> unit call" where
  "run_command ext command expand fs =
     (let cmd = (if expand then expand_space command else command);
          (fs', ok) = ext cmd fs
      in (fs', [nl # join '' '' cmd], if ok then Inr () else Inl CalledProcessError))"

section \<open>Reformatting and converting files\<close>

definition reformat_file :: "runner \<Rightarrow> fs \<Rightarrow> string \<Rightarrow> string \<Rightarrow> string option call" where
  "reformat_file ext fs file_path replace_tab_with_header =
     (let file = Path file_path
      in case fs file of
           None \<Rightarrow> (fs, [''File '' @ file_path @ '' does not exist.''], Inr None)
         | Some _ \<Rightarrow>
             (case with_name file (path_stem file @ ''-r'' @ path_suffix file) of
                Inl e \<Rightarrow> (fs, [], Inl e)
              | Inr output_file \<Rightarrow>
                  (case run_command ext
                          [''blacken-docs'', ''--line-length=120'', ''--skip-errors'', file_path]
                          True fs of
                     (fs1, out1, Inl e) \<Rightarrow> (fs1, out1, Inl e)
                   | (fs1, out1, Inr _) \<Rightarrow>
                       (case fs1 file of
                          None \<Rightarrow> (fs1, out1, Inl FileNotFoundError)
                        | Some Dir \<Rightarrow> (fs1, out1, Inl IsADirectoryError)
                        | Some (File content) \<Rightarrow>
                            (case reformat_text replace_tab_with_header content of
                               Inl e \<Rightarrow> (fs1, out1, Inl e)
                             | Inr text \<Rightarrow>
                                 (case fs1 output_file of
                                    Some Dir \<Rightarrow> (fs1, out1, Inl IsADirectoryError)
                                  | _ \<Rightarrow>
                                      (fs1(output_file \<mapsto> File text),
                                       out1 @ [''Reformatted file written to: ''
                                                 @ path_str output_file],
                                       Inr (Some (path_str output_file)))))))))"

definition convert_markdown_to_notebook :: "runner \<Rightarrow> fs \<Rightarrow> string \<Rightarrow> string option call" where
  "convert_markdown_to_notebook ext fs input_file_path =
     (if fs (Path input_file_path) = None
      then (fs, [''Input file '' @ input_file_path @ '' does not exist.''], Inr None)
      else if \<not> suffix ''.md'' input_file_path
      then (fs, [''Input file '' @ input_file_path @ '' is not a markdown file.''], Inr None)
      else
        (let output_file = replace_all ''.md'' ''.ipynb'' input_file_path
         in case run_command ext
                   [''blacken-docs'', ''--line-length=120'', ''--skip-errors'', input_file_path]
                   True fs of
              (fs1, out1, Inl e) \<Rightarrow> (fs1, out1, Inl e)
            | (fs1, out1, Inr _) \<Rightarrow>
                (case run_command ext
                        [''jupytext'', ''--to=notebook'', ''--update'', ''--pipe=black'',
                         input_file_path, ''--output='' @ output_file]
                        True fs1 of
                   (fs2, out2, Inl e) \<Rightarrow> (fs2, out1 @ out2, Inl e)
                 | (fs2, out2, Inr _) \<Rightarrow>
                     (fs2,
                      out1 @ out2 @ [''Converted '' @ input_file_path @ '' to '' @ output_file],
                      Inr (Some output_file)))))"

text \<open>\<open>Path(None)\<close> raises \<open>TypeError\<close>.\<close>

definition format_and_convert :: "runner \<Rightarrow> fs \<Rightarrow> string \<Rightarrow> string \<Rightarrow> unit call" where
  "format_and_convert ext fs file_path replace_tab_with_header =
     (case reformat_file ext fs file_path replace_tab_with_header of
        (fs1, out1, Inl e) \<Rightarrow> (fs1, out1, Inl e)
      | (fs1, out1, Inr None) \<Rightarrow> (fs1, out1, Inl TypeError)
      | (fs1, out1, Inr (Some reformatted_file)) \<Rightarrow>
          (case convert_markdown_to_notebook ext fs1 reformatted_file of
             (fs2, out2, Inl e) \<Rightarrow> (fs2, out1 @ out2, Inl e)
           | (fs2, out2, Inr _) \<Rightarrow> (fs2, out1 @ out2, Inr ())))"

section \<open>Command line entry points\<close>

text \<open>
  \<open>argv\<close> is \<open>sys.argv\<close>. \<open>sys.exit(n)\<close> raises \<open>SystemExit n\<close>; reading \<open>sys.argv[i]\<close>
  past the end raises \<open>IndexError\<close>.
\<close>

definition valid_sections :: "string list" where
  "valid_sections = [''pandas'', ''sql'', ''pyspark'', ''polars'']"

definition extract_sections_from_markdown_file_cli :: "fs \<Rightarrow> string list \<Rightarrow> unit call" where
  "extract_sections_from_markdown_file_cli fs argv =
     (if length argv < 3
      then (fs, [''Usage: extract-sections-from-markdown-file <file_path> <section_name>''],
            Inl (SystemExit 1))
      else
        (let file_path = argv ! 1; section_name = argv ! 2
         in if lower section_name \<notin> set valid_sections
            then (fs, [''Invalid section name '' @ [CHR 0x27] @ section_name @ [CHR 0x27]
                         @ ''. Valid options are: '' @ join '', '' valid_sections],
                  Inl (SystemExit 1))
            else extract_sections_from_markdown_file fs file_path section_name))"

definition discard :: "'a call \<Rightarrow> unit call" where
  "discard = (\<lambda>(fs, out, r). (fs, out, map_sum id (\<lambda>_. ()) r))"

definition reformat_file_cli :: "runner \<Rightarrow> fs \<Rightarrow> string list \<Rightarrow> unit call" where
  "reformat_file_cli ext fs argv =
     (if length argv < 2 then (fs, [''Usage: reformat-file <file_path>''], Inl (SystemExit 1))
      else if length argv \<le> 2 then (fs, [], Inl IndexError)
      else if argv ! 2 \<noteq> [] then discard (reformat_file ext fs (argv ! 1) (argv ! 2))
      else discard (reformat_file ext fs (argv ! 1) ''h3''))"

definition convert_markdown_to_notebook_cli :: "runner \<Rightarrow> fs \<Rightarrow> string list \<Rightarrow> unit call" where
  "convert_markdown_to_notebook_cli ext fs argv =
     (if length argv < 2
      then (fs, [''Usage: convert-markdown-to-notebook <file_path>''], Inl (SystemExit 1))
      else discard (convert_markdown_to_notebook ext fs (argv ! 1)))"

definition format_and_convert_cli :: "runner \<Rightarrow> fs \<Rightarrow> string list \<Rightarrow> unit call" where
  "format_and_convert_cli ext fs argv =
     (if length argv < 2
      then (fs, [''Usage: format-and-convert <file_path>''], Inl (SystemExit 1))
      else if length argv \<le> 2 then (fs, [], Inl IndexError)
      else if argv ! 2 \<noteq> [] then format_and_convert ext fs (argv ! 1) (argv ! 2)
      else format_and_convert ext fs (argv ! 1) ''h3'')"

text \<open>
  The status the process ends with: 0 after a return, the argument of \<open>sys.exit\<close>, and 1
  after any other exception, which the interpreter reports with a traceback.
\<close>

definition exit_status :: "pyerror + unit \<Rightarrow> nat" where
  "exit_status r =
     (case r of
        Inr _ \<Rightarrow> 0
      | Inl (SystemExit n) \<Rightarrow> n
      | Inl _ \<Rightarrow> 1)"

section \<open>Runs of newlines\<close>

text \<open>The newlines a text starts with, and the text after them.\<close>

definition nl_run :: "string \<Rightarrow> nat" where
  "nl_run s = length (takeWhile (\<lambda>x. x = nl) s)"

definition skip_nl :: "string \<Rightarrow> string" where
  "skip_nl s = dropWhile (\<lambda>x. x = nl) s"

section \<open>Properties of the extraction\<close>





text \<open>
  C4. Whenever the input path is missing, or its extension is not \<open>.md\<close>, or the document
  has no match of the tab pattern, or no match carries the requested name (compared in
  lower case), \<open>extract_sections_from_markdown_file\<close> leaves the file system as it was,
  prints exactly one of its four messages, and returns normally.
\<close>

theorem extract_reports_without_writing:
  assumes "fs (Path file_path) = None
     \<or> path_suffix (Path file_path) \<noteq> ''.md''
     \<or> (\<exists>content. fs (Path file_path) = Some (File content)
           \<and> (finditer content = []
                \<or> kept_sections (lower section_name) (finditer content) = []))"
  shows "extract_sections_from_markdown_file fs file_path section_name
     \<in> {(fs, [''File '' @ file_path @ '' does not exist.''], Inr ()),
         (fs, [''File '' @ file_path @ '' is not a markdown file.''], Inr ()),
         (fs, [''No tab sections found in '' @ file_path], Inr ()),
         (fs, [''No sections found for '' @ [CHR 0x27] @ section_name @ [CHR 0x27]
                 @ '' in '' @ file_path], Inr ())}"
  using assms
  by (auto simp: extract_sections_from_markdown_file_def Let_def
      split: option.splits node.splits)

theorem extract_reports_without_writing_witness:
  \<open>kept_sections (lower ''pandas'') (finditer ''=== "sql"\<newline>    SELECT 1\<newline>'') = []
   \<and> extract_sections_from_markdown_file
        (Map.empty(Path ''guide.md'' \<mapsto> File ''=== "sql"\<newline>    SELECT 1\<newline>''))
        ''guide.md'' ''pandas''
      \<in> {(Map.empty(Path ''guide.md'' \<mapsto> File ''=== "sql"\<newline>    SELECT 1\<newline>''),
           [''File '' @ ''guide.md'' @ '' does not exist.''], Inr ()),
          (Map.empty(Path ''guide.md'' \<mapsto> File ''=== "sql"\<newline>    SELECT 1\<newline>''),
           [''File '' @ ''guide.md'' @ '' is not a markdown file.''], Inr ()),
          (Map.empty(Path ''guide.md'' \<mapsto> File ''=== "sql"\<newline>    SELECT 1\<newline>''),
           [''No tab sections found in '' @ ''guide.md''], Inr ()),
          (Map.empty(Path ''guide.md'' \<mapsto> File ''=== "sql"\<newline>    SELECT 1\<newline>''),
           [''No sections found for '' @ [CHR 0x27] @ ''pandas'' @ [CHR 0x27]
              @ '' in '' @ ''guide.md''], Inr ())}\<close>
proof -
  let ?doc = \<open>''=== "sql"\<newline>    SELECT 1\<newline>''\<close>
  let ?fs = "Map.empty(Path ''guide.md'' \<mapsto> File ?doc)"
  have k: "kept_sections (lower ''pandas'') (finditer ?doc) = []"
    by code_simp
  have h: "?fs (Path ''guide.md'') = None
     \<or> path_suffix (Path ''guide.md'') \<noteq> ''.md''
     \<or> (\<exists>content. ?fs (Path ''guide.md'') = Some (File content)
           \<and> (finditer content = []
                \<or> kept_sections (lower ''pandas'') (finditer content) = []))"
    using k by simp
  show ?thesis
    using extract_reports_without_writing [of ?fs "''guide.md''" "''pandas''"] h k
    by blast
qed



section \<open>Collapsing runs of newlines\<close>

lemma nl_run_Nil: "nl_run [] = 0"
  by (simp add: nl_run_def)

lemma nl_run_Cons: "nl_run (c # cs) = (if c = nl then Suc (nl_run cs) else 0)"
  by (simp add: nl_run_def)

lemma nl_run_skip_nl: "nl_run (skip_nl s) = 0"
  unfolding nl_run_def skip_nl_def by (induction s) auto

lemma sub_newlines_Cons:
  "sub_newlines (c # cs) =
     (if 4 \<le> nl_run (c # cs) then nl # nl # nl # sub_newlines (skip_nl (c # cs))
      else c # sub_newlines cs)"
proof -
  have "drop (length (takeWhile (\<lambda>x. x = nl) s)) s = dropWhile (\<lambda>x. x = nl) s" for s :: string
    by (induction s) auto
  then show ?thesis
    by (simp add: sub_newlines.simps(2) Let_def nl_run_def skip_nl_def
        del: takeWhile.simps dropWhile.simps)
qed

lemma sub_newlines_cases [case_names Nil long short]:
  assumes "P []"
    and "\<And>c cs. 4 \<le> nl_run (c # cs) \<Longrightarrow> P (skip_nl (c # cs)) \<Longrightarrow> P (c # cs)"
    and "\<And>c cs. \<not> 4 \<le> nl_run (c # cs) \<Longrightarrow> P cs \<Longrightarrow> P (c # cs)"
  shows "P s"
proof (induction s rule: sub_newlines.induct)
  case 1
  show ?case by (rule assms(1))
next
  case (2 c cs)
  have "drop (length (takeWhile (\<lambda>x. x = nl) s)) s = dropWhile (\<lambda>x. x = nl) s" for s :: string
    by (induction s) auto
  then have d: "drop (length (takeWhile (\<lambda>x. x = nl) (c # cs))) (c # cs) = skip_nl (c # cs)"
    unfolding skip_nl_def by blast
  show ?case
  proof (cases "4 \<le> nl_run (c # cs)")
    case True
    then have "P (skip_nl (c # cs))"
      using "2.IH"(1) [OF refl] unfolding d nl_run_def by blast
    with True show ?thesis by (rule assms(2))
  next
    case False
    then have "P cs"
      using "2.IH"(2) [OF refl] unfolding nl_run_def by blast
    with False show ?thesis by (rule assms(3))
  qed
qed

lemma nl_run_sub_newlines: "nl_run (sub_newlines s) \<le> nl_run s"
proof (induction s rule: sub_newlines_cases)
  case Nil
  show ?case by simp
next
  case (long c cs)
  then have "nl_run (sub_newlines (skip_nl (c # cs))) = 0"
    by (simp add: nl_run_skip_nl)
  then have "nl_run (sub_newlines (c # cs)) = 3"
    using long(1) by (simp add: sub_newlines_Cons nl_run_Cons)
  with long(1) show ?case by simp
next
  case (short c cs)
  then show ?case
    by (simp add: sub_newlines_Cons nl_run_Cons)
qed

lemma prefix_replicate_nl: "prefix (replicate n nl) s \<longleftrightarrow> n \<le> nl_run s"
proof (induction s arbitrary: n)
  case Nil
  show ?case by (simp add: nl_run_Nil)
next
  case (Cons c cs)
  then show ?case by (cases n) (auto simp: nl_run_Cons)
qed

lemma sublist_nl_Cons:
  "sublist (replicate 4 nl) (c # cs) \<longleftrightarrow> 4 \<le> nl_run (c # cs) \<or> sublist (replicate 4 nl) cs"
proof -
  have "replicate 4 nl \<noteq> []" by simp
  then show ?thesis
    using prefix_replicate_nl [of 4 "c # cs"] sublist_Cons_right [of "replicate 4 nl" c cs]
    by blast
qed

lemma sub_newlines_no_run: "\<not> sublist (replicate 4 nl) (sub_newlines s)"
proof (induction s rule: sub_newlines_cases)
  case Nil
  show ?case by simp
next
  case (long c cs)
  let ?r = "sub_newlines (skip_nl (c # cs))"
  have "nl_run ?r \<le> nl_run (skip_nl (c # cs))"
    by (rule nl_run_sub_newlines)
  then have z: "nl_run ?r = 0"
    by (simp add: nl_run_skip_nl)
  have "sub_newlines (c # cs) = nl # nl # nl # ?r"
    using long(1) by (simp add: sub_newlines_Cons)
  then show ?case
    using long(2) z by (simp add: sublist_nl_Cons nl_run_Cons del: replicate.simps)
next
  case (short c cs)
  have le: "nl_run (sub_newlines cs) \<le> nl_run cs"
    by (rule nl_run_sub_newlines)
  have "sub_newlines (c # cs) = c # sub_newlines cs"
    using short(1) by (simp add: sub_newlines_Cons)
  moreover have "\<not> 4 \<le> nl_run (c # sub_newlines cs)"
    using short(1) le by (simp add: nl_run_Cons split: if_splits)
  ultimately show ?case
    using short(2) by (simp only: sublist_nl_Cons) simp
qed

lemma nl_run_append:
  assumes "last (c # cs) \<noteq> nl"
  shows "nl_run ((c # cs) @ b) = nl_run (c # cs)"
    and "skip_nl ((c # cs) @ b) = skip_nl (c # cs) @ b"
    and "skip_nl (c # cs) \<noteq> []"
    and "last (skip_nl (c # cs)) = last (c # cs)"
proof -
  have m: "last (c # cs) \<in> set (c # cs)"
    by (rule last_in_set) simp
  have "takeWhile (\<lambda>x. x = nl) ((c # cs) @ b) = takeWhile (\<lambda>x. x = nl) (c # cs)"
    using m assms by (rule takeWhile_append1)
  then show "nl_run ((c # cs) @ b) = nl_run (c # cs)"
    unfolding nl_run_def by (rule arg_cong)
  show "skip_nl ((c # cs) @ b) = skip_nl (c # cs) @ b"
    unfolding skip_nl_def using m assms by (rule dropWhile_append1)
  have "\<not> (\<forall>x \<in> set (c # cs). x = nl)"
    using m assms by blast
  then show ne: "skip_nl (c # cs) \<noteq> []"
    unfolding skip_nl_def dropWhile_eq_Nil_conv .
  have "takeWhile (\<lambda>x. x = nl) (c # cs) @ skip_nl (c # cs) = c # cs"
    unfolding skip_nl_def by (rule takeWhile_dropWhile_id)
  then have "last (takeWhile (\<lambda>x. x = nl) (c # cs) @ skip_nl (c # cs)) = last (c # cs)"
    by (rule arg_cong)
  moreover have "last (takeWhile (\<lambda>x. x = nl) (c # cs) @ skip_nl (c # cs))
      = last (skip_nl (c # cs))"
    using ne by (rule last_appendR)
  ultimately show "last (skip_nl (c # cs)) = last (c # cs)"
    by (simp only:)
qed

lemma sub_newlines_append:
  assumes "a = [] \<or> last a \<noteq> nl"
  shows "sub_newlines (a @ b) = sub_newlines a @ sub_newlines b"
  using assms
proof (induction a rule: sub_newlines_cases)
  case Nil
  show ?case by simp
next
  case (long c cs)
  from long(3) have l: "last (c # cs) \<noteq> nl" by simp
  note f = nl_run_append [OF l]
  have "sub_newlines (skip_nl (c # cs) @ b) = sub_newlines (skip_nl (c # cs)) @ sub_newlines b"
    using long(2) l f(4) by simp
  moreover have "sub_newlines ((c # cs) @ b) = nl # nl # nl # sub_newlines (skip_nl ((c # cs) @ b))"
    using sub_newlines_Cons [of c "cs @ b"] long(1) f(1) by simp
  moreover have "sub_newlines (c # cs) = nl # nl # nl # sub_newlines (skip_nl (c # cs))"
    using sub_newlines_Cons [of c cs] long(1) by simp
  ultimately show ?case
    using f(2) by simp
next
  case (short c cs)
  from short(3) have l: "last (c # cs) \<noteq> nl" by simp
  note f = nl_run_append [OF l]
  have "cs = [] \<or> last cs \<noteq> nl"
    using l by auto
  then have "sub_newlines (cs @ b) = sub_newlines cs @ sub_newlines b"
    by (rule short(2))
  moreover have "sub_newlines ((c # cs) @ b) = c # sub_newlines (cs @ b)"
    using sub_newlines_Cons [of c "cs @ b"] short(1) f(1) by simp
  moreover have "sub_newlines (c # cs) = c # sub_newlines cs"
    using sub_newlines_Cons [of c cs] short(1) by simp
  ultimately show ?case by simp
qed

lemma sub_newlines_run:
  assumes "4 \<le> n" and "b = [] \<or> hd b \<noteq> nl"
  shows "sub_newlines (replicate n nl @ b) = nl # nl # nl # sub_newlines b"
proof -
  have t: "takeWhile (\<lambda>x. x = nl) (replicate n nl @ b) = replicate n nl"
    using assms(2) by (induction n) (cases b; simp)+
  have d: "dropWhile (\<lambda>x. x = nl) (replicate n nl @ b) = b"
    using assms(2) by (induction n) (cases b; simp)+
  obtain c cs where c: "replicate n nl @ b = c # cs"
    using assms(1) by (cases n) auto
  have "nl_run (c # cs) = n"
    unfolding c [symmetric] nl_run_def t by simp
  moreover have "skip_nl (c # cs) = b"
    unfolding c [symmetric] skip_nl_def d ..
  ultimately show ?thesis
    using sub_newlines_Cons [of c cs] assms(1) c by simp
qed

lemma extract_written:
  assumes "fst (extract_sections_from_markdown_file fs file_path section_name) p = Some (File c)"
    and "fs p \<noteq> Some (File c)"
  shows "\<exists>content. fs (Path file_path) = Some (File content)
           \<and> c = sub_newlines (remove_sections (lower section_name)
                                  (rev (finditer content)) content)"
  using assms
  by (auto simp: extract_sections_from_markdown_file_def Let_def
      split: option.splits node.splits sum.splits if_splits)

text \<open>
  C5. Whatever \<open>extract_sections_from_markdown_file\<close> writes is the result of the removal
  loop passed through \<open>sub_newlines\<close>, and holds no four consecutive newlines. In the
  text given to \<open>sub_newlines\<close>, a run of \<open>n \<ge> 4\<close> newlines, bounded on both sides by
  other characters or the ends of the text, comes out as exactly three newlines.
\<close>

theorem extract_output_newlines:
  "(fs (Path file_path) = Some (File content)
      \<and> fst (extract_sections_from_markdown_file fs file_path section_name) p = Some (File c)
      \<and> fs p \<noteq> Some (File c)
    \<longrightarrow> c = sub_newlines (remove_sections (lower section_name) (rev (finditer content)) content)
        \<and> \<not> sublist (replicate 4 nl) c)
   \<and> (4 \<le> n \<and> (a = [] \<or> last a \<noteq> nl) \<and> (b = [] \<or> hd b \<noteq> nl)
    \<longrightarrow> sub_newlines (a @ replicate n nl @ b)
          = sub_newlines a @ replicate 3 nl @ sub_newlines b)"
proof (intro conjI impI)
  assume h: "fs (Path file_path) = Some (File content)
      \<and> fst (extract_sections_from_markdown_file fs file_path section_name) p = Some (File c)
      \<and> fs p \<noteq> Some (File c)"
  then obtain content' where "fs (Path file_path) = Some (File content')"
    and "c = sub_newlines (remove_sections (lower section_name)
                             (rev (finditer content')) content')"
    using extract_written [of fs file_path section_name p c] by blast
  with h show c: "c = sub_newlines (remove_sections (lower section_name)
                                     (rev (finditer content)) content)"
    by simp
  show "\<not> sublist (replicate 4 nl) c"
    unfolding c by (rule sub_newlines_no_run)
next
  assume h: "4 \<le> n \<and> (a = [] \<or> last a \<noteq> nl) \<and> (b = [] \<or> hd b \<noteq> nl)"
  then have "sub_newlines (a @ replicate n nl @ b)
      = sub_newlines a @ sub_newlines (replicate n nl @ b)"
    by (simp add: sub_newlines_append)
  moreover have "sub_newlines (replicate n nl @ b) = nl # nl # nl # sub_newlines b"
    using h by (simp add: sub_newlines_run)
  moreover have "replicate 3 nl = [nl, nl, nl]"
    by (simp add: numeral_3_eq_3)
  ultimately show "sub_newlines (a @ replicate n nl @ b)
      = sub_newlines a @ replicate 3 nl @ sub_newlines b"
    by simp
qed

theorem extract_output_newlines_witness:
  \<open>fst (extract_sections_from_markdown_file
          (Map.empty(Path ''guide.md'' \<mapsto>
             File ''intro\<newline>\<newline>\<newline>\<newline>\<newline>\<newline>=== "sql"\<newline>    SELECT 1\<newline>''))
          ''guide.md'' ''sql'') (Path ''guide-sql.md'')
     = Some (File ''intro\<newline>\<newline>\<newline>=== "sql"\<newline>    SELECT 1\<newline>'')
   \<and> \<not> sublist (replicate 4 nl) ''intro\<newline>\<newline>\<newline>=== "sql"\<newline>    SELECT 1\<newline>''
   \<and> sub_newlines (''intro'' @ replicate 6 nl @ ''=== "sql"'')
       = sub_newlines ''intro'' @ replicate 3 nl @ sub_newlines ''=== "sql"''\<close>
proof -
  let ?doc = \<open>''intro\<newline>\<newline>\<newline>\<newline>\<newline>\<newline>=== "sql"\<newline>    SELECT 1\<newline>''\<close>
  let ?out = \<open>''intro\<newline>\<newline>\<newline>=== "sql"\<newline>    SELECT 1\<newline>''\<close>
  let ?fs = "Map.empty(Path ''guide.md'' \<mapsto> File ?doc)"
  have r: "?fs (Path ''guide.md'') = Some (File ?doc)"
    by simp
  have w: "fst (extract_sections_from_markdown_file ?fs ''guide.md'' ''sql'')
             (Path ''guide-sql.md'') = Some (File ?out)"
    by code_simp
  have o: "?fs (Path ''guide-sql.md'') \<noteq> Some (File ?out)"
    by code_simp
  have n: \<open>(4::nat) \<le> 6 \<and> (''intro'' = [] \<or> last ''intro'' \<noteq> nl)
             \<and> (''=== "sql"'' = [] \<or> hd ''=== "sql"'' \<noteq> nl)\<close>
    by simp
  show ?thesis
    using extract_output_newlines [of ?fs "''guide.md''" ?doc "''sql''" "Path ''guide-sql.md''"
        ?out 6 "''intro''" \<open>''=== "sql"''\<close>] r w o n
    by blast
qed

section \<open>Where the output goes\<close>









section \<open>What the removal loop deletes\<close>

text \<open>
  C1. The loop deletes, for each section to remove, the first place where its captured
  text occurs in the running result, which need not be the place where the section was
  matched. In the document below the third section (\<open>sql\<close>, at offset 54) is a prefix of
  the first (\<open>sql\<close>, at offset 0). Asked for \<open>pandas\<close>, the call deletes the beginning
  of the first section in place of the third, then no longer finds the text of the first:
  what it writes keeps a line of the first section and the whole third section, where
  deleting the two matched spans would leave the \<open>pandas\<close> section alone.
\<close>

theorem extract_deletes_first_occurrence:
  \<open>finditer ''=== "sql"\<newline>    SELECT 1\<newline>    FROM t\<newline>=== "pandas"\<newline>    df\<newline>=== "sql"\<newline>    SELECT 1\<newline>''
     = [\<lparr>m_start = 0, group0 = ''=== "sql"\<newline>    SELECT 1\<newline>    FROM t\<newline>'', group1 = ''sql''\<rparr>,
        \<lparr>m_start = 34, group0 = ''=== "pandas"\<newline>    df\<newline>'', group1 = ''pandas''\<rparr>,
        \<lparr>m_start = 54, group0 = ''=== "sql"\<newline>    SELECT 1\<newline>'', group1 = ''sql''\<rparr>]
   \<and> fst (extract_sections_from_markdown_file
          (Map.empty(Path ''guide.md'' \<mapsto>
             File ''=== "sql"\<newline>    SELECT 1\<newline>    FROM t\<newline>=== "pandas"\<newline>    df\<newline>=== "sql"\<newline>    SELECT 1\<newline>''))
          ''guide.md'' ''pandas'') (Path ''guide-pandas.md'')
     = Some (File ''    FROM t\<newline>=== "pandas"\<newline>    df\<newline>=== "sql"\<newline>    SELECT 1\<newline>'')\<close>
  by code_simp

theorem extract_deletes_first_occurrence_witness:
  \<open>fst (extract_sections_from_markdown_file
          (Map.empty(Path ''guide.md'' \<mapsto>
             File ''=== "sql"\<newline>    SELECT 1\<newline>    FROM t\<newline>=== "pandas"\<newline>    df\<newline>=== "sql"\<newline>    SELECT 1\<newline>''))
          ''guide.md'' ''pandas'') (Path ''guide-pandas.md'')
     \<noteq> Some (File ''=== "pandas"\<newline>    df\<newline>'')
   \<and> sublist ''=== "sql"\<newline>    SELECT 1\<newline>''
        ''    FROM t\<newline>=== "pandas"\<newline>    df\<newline>=== "sql"\<newline>    SELECT 1\<newline>''\<close>
proof -
  have \<open>sublist ''=== "sql"\<newline>    SELECT 1\<newline>''
          ''    FROM t\<newline>=== "pandas"\<newline>    df\<newline>=== "sql"\<newline>    SELECT 1\<newline>''\<close>
    by code_simp
  then show ?thesis
    using extract_deletes_first_occurrence by simp
qed

section \<open>Properties of the reformatting\<close>

lemma convert_heading_h3:
  "convert_heading ''h3'' (line, st) =
     Inr (if prefix ''==='' line
          then (replace_all [quote] [] (replace_all ''=== '' ''### '' line), st\<lparr>in_tab_block := True\<rparr>)
          else (line, st))"
proof -
  have "int_char (''h3'' ! 1) = Inr 3"
    by code_simp
  moreover have "replicate 3 CHR ''#'' @ '' '' = ''### ''"
    by code_simp
  ultimately show ?thesis
    by (simp add: convert_heading_def)
qed

lemma reformat_line_h3: "\<exists>x. reformat_line ''h3'' st line = Inr x"
  by (cases "dedent_tab (line, st)") (simp add: reformat_line_def convert_heading_h3)

lemma reformat_lines_h3: "\<exists>out. reformat_lines ''h3'' st lines = Inr out \<and> length out = length lines"
proof (induction lines arbitrary: st)
  case Nil
  show ?case by simp
next
  case (Cons l ls)
  obtain l' st' where s: "reformat_line ''h3'' st l = Inr (l', st')"
    using reformat_line_h3 [of st l] by fastforce
  obtain out where "reformat_lines ''h3'' st' ls = Inr out" "length out = length ls"
    using Cons.IH by blast
  with s show ?case by simp
qed

lemma strip_prefix:
  assumes "prefix p s" and "p \<noteq> []" and "\<not> isspace (hd p)" and "\<not> isspace (last p)"
  shows "prefix p (strip s)"
proof -
  from assms(1) obtain t where s: "s = p @ t"
    by (auto simp: prefix_def)
  have d: "dropWhile isspace s = s"
    using assms(2,3) s by (cases p) auto
  have "\<exists>u. dropWhile isspace (rev t @ rev p) = u @ rev p"
  proof (cases "\<forall>x \<in> set (rev t). isspace x")
    case True
    then have "dropWhile isspace (rev t @ rev p) = dropWhile isspace (rev p)"
      by (intro dropWhile_append2) blast
    moreover have "dropWhile isspace (rev p) = rev p"
      using assms(2,4) by (cases p rule: rev_cases) auto
    ultimately show ?thesis by simp
  next
    case False
    then obtain x where "x \<in> set (rev t)" "\<not> isspace x" by blast
    then have "dropWhile isspace (rev t @ rev p) = dropWhile isspace (rev t) @ rev p"
      by (rule dropWhile_append1)
    then show ?thesis by blast
  qed
  then obtain u where "dropWhile isspace (rev s) = u @ rev p"
    unfolding s by auto
  then have "strip s = p @ rev u"
    unfolding strip_def d by simp
  then show ?thesis by simp
qed

lemma replace_all_prefix:
  assumes "old \<noteq> []" and "prefix old s"
  shows "replace_all old new s = new @ replace_all old new (drop (length old) s)"
proof (cases s)
  case Nil
  with assms show ?thesis by simp
next
  case (Cons c cs)
  have "prefix old (c # cs)"
    using assms(2) Cons by simp
  then show ?thesis
    unfolding Cons by (subst replace_all.simps) (simp add: assms(1))
qed

lemma opened_fence_closes:
  assumes "prefix ''```py'' line"
  shows "prefix ''```'' (strip (replace_all ''```py'' ''```python'' line))"
proof -
  have "replace_all ''```py'' ''```python'' line
      = ''```python'' @ replace_all ''```py'' ''```python'' (drop (length ''```py'') line)"
    using assms by (intro replace_all_prefix) simp_all
  then have "prefix ''```'' (replace_all ''```py'' ''```python'' line)"
    by simp
  moreover have "\<not> isspace CHR 0x60"
    by code_simp
  ultimately show ?thesis
    by (intro strip_prefix) simp_all
qed

lemma reformat_line_code_block:
  assumes "reformat_line style st line = Inr (line', st')" and "\<not> in_code_block st"
  shows "\<not> in_code_block st'"
proof (cases "length (strip line) = 0")
  case True
  with assms show ?thesis by (simp add: reformat_line_def)
next
  case False
  obtain l1 st1 where d: "dedent_tab (line, st) = (l1, st1)"
    by (cases "dedent_tab (line, st)")
  have c1: "\<not> in_code_block st1"
    using d assms(2) by (auto simp: dedent_tab_def split: if_splits)
  obtain l2 st2 where h: "convert_heading style (l1, st1) = Inr (l2, st2)"
    and r: "(line', st') = remove_markers (close_fence (open_fence (l2, st2)))"
    using assms(1) False d by (auto simp: reformat_line_def split: sum.splits)
  have c2: "\<not> in_code_block st2"
    using h c1 by (auto simp: convert_heading_def split: if_splits sum.splits)
  obtain l3 st3 where o: "open_fence (l2, st2) = (l3, st3)"
    by (cases "open_fence (l2, st2)")
  have "\<not> in_code_block (snd (close_fence (l3, st3)))"
  proof (cases "prefix ''```py'' l2 \<and> \<not> prefix ''```python'' l2")
    case True
    then have "l3 = replace_all ''```py'' ''```python'' l2"
      using o by (simp add: open_fence_def)
    then have "prefix ''```'' (strip l3)"
      using True opened_fence_closes by blast
    then show ?thesis
      by (simp add: close_fence_def)
  next
    case False
    then have "st3 = st2"
      using o by (auto simp: open_fence_def)
    then show ?thesis
      using c2 by (simp add: close_fence_def)
  qed
  then show ?thesis
    using r o by (cases "close_fence (l3, st3)") (auto simp: remove_markers_def split: if_splits)
qed



lemma strip_indent: "strip (''    '' @ a) = strip a"
proof -
  have "isspace CHR '' ''"
    by code_simp
  then show ?thesis
    by (simp add: strip_def)
qed


lemma reformat_line_indented:
  assumes "\<not> in_code_block st" and "in_tab_block st" and "strip a \<noteq> []"
    and "\<not> prefix ''==='' a" and "\<not> (prefix ''```py'' a \<and> \<not> prefix ''```python'' a)"
    and "\<not> sublist ''--8<--'' a"
  shows "reformat_line style st (''    '' @ a) = Inr (a, st)"
proof -
  have "dedent_tab (''    '' @ a, st) = (a, st)"
    using assms(2) by (simp add: dedent_tab_def)
  moreover have "convert_heading style (a, st) = Inr (a, st)"
    using assms(4) by (simp add: convert_heading_def)
  moreover have "open_fence (a, st) = (a, st)"
    using assms(5) by (auto simp: open_fence_def)
  moreover have "remove_markers (close_fence (a, st)) = (a, st)"
    using assms(1,6) by (simp add: close_fence_def remove_markers_def)
  ultimately show ?thesis
    using assms(3) by (simp add: reformat_line_def strip_indent del: append_Cons)
qed

lemma reformat_line_marker:
  assumes "\<not> in_code_block st"
  shows \<open>reformat_line ''h3'' st ''=== "Pandas"\<newline>''
           = Inr (''### Pandas\<newline>'', st\<lparr>in_tab_block := True\<rparr>)\<close>
proof -
  let ?m = \<open>''=== "Pandas"\<newline>''\<close>
  have n: "length (strip ?m) \<noteq> 0"
    by code_simp
  have d: "dedent_tab (?m, st) = (?m, st\<lparr>in_tab_block := False\<rparr>)"
    by (cases "in_tab_block st") (simp_all add: dedent_tab_def)
  have r: \<open>replace_all [quote] [] (replace_all ''=== '' ''### '' ?m) = ''### Pandas\<newline>''\<close>
    by code_simp
  have p: "prefix ''==='' ?m"
    by simp
  have c: \<open>convert_heading ''h3'' (?m, st\<lparr>in_tab_block := False\<rparr>)
             = Inr (''### Pandas\<newline>'', st\<lparr>in_tab_block := True\<rparr>)\<close>
    unfolding convert_heading_h3 r using p by simp
  have s: \<open>\<not> sublist ''--8<--'' ''### Pandas\<newline>''\<close>
    by code_simp
  have f: \<open>remove_markers (close_fence (open_fence (''### Pandas\<newline>'', st\<lparr>in_tab_block := True\<rparr>)))
            = (''### Pandas\<newline>'', st\<lparr>in_tab_block := True\<rparr>)\<close>
    using assms s by (simp add: open_fence_def close_fence_def remove_markers_def)
  show ?thesis
    using n unfolding reformat_line_def d c by (simp only: f if_False sum.case)
qed

text \<open>
  C2. The block that opens a fence sets \<open>in_code_block\<close> and rewrites the line to begin
  with \<open>```python\<close>; the next block clears the flag on any line that, trimmed, begins
  with three backticks, so it clears it on that same opening line. The flag is therefore
  false again before the line after the fence is read, and the include marker inside the
  fence below is blanked like one outside (\<open>reformat_line_code_block\<close>: from a state
  with the flag false, every line leaves it false).
\<close>

theorem reformat_blanks_marker_inside_fence:
  \<open>reformat_line ''h3'' \<lparr>in_code_block = False, in_tab_block = False\<rparr> ''```py\<newline>''
     = Inr (''```python\<newline>'', \<lparr>in_code_block = False, in_tab_block = False\<rparr>)
   \<and> reformat_lines ''h3'' \<lparr>in_code_block = False, in_tab_block = False\<rparr>
        [''```py\<newline>'', ''--8<-- "snippet.py"\<newline>'', ''```\<newline>'']
     = Inr [''```python\<newline>'', [], ''```\<newline>'']
   \<and> reformat_text ''h3'' ''```py\<newline>--8<-- "snippet.py"\<newline>```\<newline>''
     = Inr ''```python\<newline>```\<newline>''\<close>
  by code_simp

theorem reformat_blanks_marker_inside_fence_witness:
  \<open>reformat_text ''h3'' ''```py\<newline>--8<-- "snippet.py"\<newline>```\<newline>''
     \<noteq> Inr ''```python\<newline>--8<-- "snippet.py"\<newline>```\<newline>''\<close>
  using reformat_blanks_marker_inside_fence by simp





text \<open>
  C6, as stated, fails when one of the two indented lines holds the include marker: the
  line is blanked, not dedented.
\<close>

theorem reformat_tab_counterexample:
  \<open>reformat_lines ''h3'' \<lparr>in_code_block = False, in_tab_block = False\<rparr>
       [''=== "Pandas"\<newline>'', ''    --8<-- "pandas.py"\<newline>'', ''    df.sum()\<newline>'']
     = Inr [''### Pandas\<newline>'', [], ''df.sum()\<newline>'']
   \<and> [] \<noteq> drop 4 ''    --8<-- "pandas.py"\<newline>''\<close>
  by code_simp

text \<open>
  C6, amended. With header style \<open>h3\<close>, in a document whose lines hold the marker line
  \<open>=== "Pandas"\<close> followed by two lines indented by four spaces, each with a character
  that is not white space, neither starting after the indent with \<open>===\<close> or with
  \<open>```py\<close> other than \<open>```python\<close>, and neither holding \<open>--8<--\<close>: the output has the
  same number of lines before and after the three, the marker line has become
  \<open>### Pandas\<close>, and each of the two lines has lost exactly its first four spaces.
\<close>

theorem reformat_tab_scenario:
  assumes \<open>lines = pre @ [''=== "Pandas"\<newline>'', ''    '' @ a, ''    '' @ b] @ post\<close>
    and "strip a \<noteq> []" and "strip b \<noteq> []"
    and "\<not> prefix ''==='' a" and "\<not> prefix ''==='' b"
    and "\<not> (prefix ''```py'' a \<and> \<not> prefix ''```python'' a)"
    and "\<not> (prefix ''```py'' b \<and> \<not> prefix ''```python'' b)"
    and "\<not> sublist ''--8<--'' a" and "\<not> sublist ''--8<--'' b"
  shows \<open>\<exists>pre' post'.
           reformat_lines ''h3'' \<lparr>in_code_block = False, in_tab_block = False\<rparr> lines
             = Inr (pre' @ [''### Pandas\<newline>'', a, b] @ post')
           \<and> length pre' = length pre \<and> length post' = length post\<close>
proof -
  have \<open>\<exists>pre' post'.
           reformat_lines ''h3'' st (pre @ [''=== "Pandas"\<newline>'', ''    '' @ a, ''    '' @ b] @ post)
             = Inr (pre' @ [''### Pandas\<newline>'', a, b] @ post')
           \<and> length pre' = length pre \<and> length post' = length post\<close>
    if "\<not> in_code_block st" for st
    using that
  proof (induction pre arbitrary: st)
    case Nil
    let ?st1 = "st\<lparr>in_tab_block := True\<rparr>"
    have c: "\<not> in_code_block ?st1" and t: "in_tab_block ?st1"
      using Nil by simp_all
    have m: \<open>reformat_line ''h3'' st ''=== "Pandas"\<newline>'' = Inr (''### Pandas\<newline>'', ?st1)\<close>
      using Nil by (rule reformat_line_marker)
    have la: "reformat_line ''h3'' ?st1 (''    '' @ a) = Inr (a, ?st1)"
      using c t assms(2,4,6,8) by (rule reformat_line_indented)
    have lb: "reformat_line ''h3'' ?st1 (''    '' @ b) = Inr (b, ?st1)"
      using c t assms(3,5,7,9) by (rule reformat_line_indented)
    obtain post' where p: "reformat_lines ''h3'' ?st1 post = Inr post'" "length post' = length post"
      using reformat_lines_h3 by blast
    have \<open>reformat_lines ''h3'' st ([''=== "Pandas"\<newline>'', ''    '' @ a, ''    '' @ b] @ post)
            = Inr ([''### Pandas\<newline>'', a, b] @ post')\<close>
      using m la lb p(1) by simp
    then show ?case
      using p(2) by (intro exI [of _ "[]"] exI [of _ post']) simp
  next
    case (Cons l ls)
    obtain l' st' where s: "reformat_line ''h3'' st l = Inr (l', st')"
      using reformat_line_h3 [of st l] by fastforce
    then have "\<not> in_code_block st'"
      using Cons.prems by (rule reformat_line_code_block)
    then obtain pre' post' where
      \<open>reformat_lines ''h3'' st' (ls @ [''=== "Pandas"\<newline>'', ''    '' @ a, ''    '' @ b] @ post)
         = Inr (pre' @ [''### Pandas\<newline>'', a, b] @ post')\<close>
      and "length pre' = length ls" and "length post' = length post"
      using Cons.IH by blast
    then show ?case
      using s by (intro exI [of _ "l' # pre'"] exI [of _ post']) simp
  qed
  then show ?thesis
    unfolding assms(1) by simp
qed


theorem reformat_tab_scenario_witness:
  \<open>\<exists>pre' post'.
      reformat_lines ''h3'' \<lparr>in_code_block = False, in_tab_block = False\<rparr>
        ([''# Sums\<newline>'', ''\<newline>'']
         @ [''=== "Pandas"\<newline>'', ''    '' @ ''import pandas as pd\<newline>'', ''    '' @ ''    df.sum()\<newline>'']
         @ [''Done.\<newline>''])
        = Inr (pre' @ [''### Pandas\<newline>'', ''import pandas as pd\<newline>'', ''    df.sum()\<newline>''] @ post')
      \<and> length pre' = length [''# Sums\<newline>'', ''\<newline>'']
      \<and> length post' = length [''Done.\<newline>'']\<close>
proof -
  let ?a = \<open>''import pandas as pd\<newline>''\<close>
  let ?b = \<open>''    df.sum()\<newline>''\<close>
  have h: "strip ?a \<noteq> []" "strip ?b \<noteq> []"
    "\<not> prefix ''==='' ?a" "\<not> prefix ''==='' ?b"
    "\<not> (prefix ''```py'' ?a \<and> \<not> prefix ''```python'' ?a)"
    "\<not> (prefix ''```py'' ?b \<and> \<not> prefix ''```python'' ?b)"
    "\<not> sublist ''--8<--'' ?a" "\<not> sublist ''--8<--'' ?b"
    by code_simp+
  show ?thesis
    by (rule reformat_tab_scenario [OF refl h])
qed

section \<open>Properties of the entry points\<close>

text \<open>
  C9. Each of the four entry points, started without its positional arguments (fewer
  than two for \<open>extract-sections-from-markdown-file\<close>, none for the other three), leaves
  the file system alone, prints its usage line and nothing else, and ends by
  \<open>sys.exit(1)\<close>: the process status is 1.
\<close>

theorem cli_usage_and_exit:
  "(length argv < 3 \<longrightarrow>
      extract_sections_from_markdown_file_cli fs argv
        = (fs, [''Usage: extract-sections-from-markdown-file <file_path> <section_name>''],
           Inl (SystemExit 1))
      \<and> exit_status (snd (snd (extract_sections_from_markdown_file_cli fs argv))) = 1)
   \<and> (length argv < 2 \<longrightarrow>
      reformat_file_cli ext fs argv
        = (fs, [''Usage: reformat-file <file_path>''], Inl (SystemExit 1))
      \<and> exit_status (snd (snd (reformat_file_cli ext fs argv))) = 1
      \<and> convert_markdown_to_notebook_cli ext fs argv
        = (fs, [''Usage: convert-markdown-to-notebook <file_path>''], Inl (SystemExit 1))
      \<and> exit_status (snd (snd (convert_markdown_to_notebook_cli ext fs argv))) = 1
      \<and> format_and_convert_cli ext fs argv
        = (fs, [''Usage: format-and-convert <file_path>''], Inl (SystemExit 1))
      \<and> exit_status (snd (snd (format_and_convert_cli ext fs argv))) = 1)"
  by (simp add: extract_sections_from_markdown_file_cli_def reformat_file_cli_def
      convert_markdown_to_notebook_cli_def format_and_convert_cli_def exit_status_def)

theorem cli_usage_and_exit_witness:
  "length [''extract-sections-from-markdown-file'', ''guide.md''] < 3
   \<and> exit_status (snd (snd (extract_sections_from_markdown_file_cli Map.empty
         [''extract-sections-from-markdown-file'', ''guide.md'']))) = 1
   \<and> length [''reformat-file''] < 2
   \<and> exit_status (snd (snd (reformat_file_cli (\<lambda>cmd fs. (fs, True)) Map.empty
         [''reformat-file'']))) = 1
   \<and> exit_status (snd (snd (convert_markdown_to_notebook_cli (\<lambda>cmd fs. (fs, True)) Map.empty
         [''reformat-file'']))) = 1
   \<and> exit_status (snd (snd (format_and_convert_cli (\<lambda>cmd fs. (fs, True)) Map.empty
         [''reformat-file'']))) = 1"
proof -
  have a: "length [''extract-sections-from-markdown-file'', ''guide.md''] < 3"
    by simp
  have b: "length [''reformat-file''] < 2"
    by simp
  show ?thesis
    using a b
      cli_usage_and_exit [of "[''extract-sections-from-markdown-file'', ''guide.md'']"
        Map.empty "\<lambda>cmd fs. (fs, True)"]
      cli_usage_and_exit [of "[''reformat-file'']" Map.empty "\<lambda>cmd fs. (fs, True)"]
    by blast
qed

text \<open>
  C3. \<open>reformat_file_cli\<close> and \<open>format_and_convert_cli\<close> test \<open>sys.argv[2]\<close> to choose
  between the given header style and the default. Started with the file path alone,
  \<open>sys.argv\<close> has two entries and the test itself raises \<open>IndexError\<close>: nothing is
  reformatted, nothing is printed by the script, and the process status is 1.
\<close>

theorem cli_header_style_missing:
  "reformat_file_cli ext fs [''reformat-file'', ''guide.md''] = (fs, [], Inl IndexError)
   \<and> format_and_convert_cli ext fs [''format-and-convert'', ''guide.md'']
       = (fs, [], Inl IndexError)
   \<and> exit_status (Inl IndexError) = 1"
  by (simp add: reformat_file_cli_def format_and_convert_cli_def exit_status_def)

theorem cli_header_style_missing_witness:
  "exit_status (snd (snd (reformat_file_cli (\<lambda>cmd fs. (fs, True))
       (Map.empty(Path ''guide.md'' \<mapsto> File ''text''))
       [''reformat-file'', ''guide.md'']))) = 1
   \<and> exit_status (snd (snd (format_and_convert_cli (\<lambda>cmd fs. (fs, True))
       (Map.empty(Path ''guide.md'' \<mapsto> File ''text''))
       [''format-and-convert'', ''guide.md'']))) = 1"
  using cli_header_style_missing [of "\<lambda>cmd fs. (fs, True)"
      "Map.empty(Path ''guide.md'' \<mapsto> File ''text'')"]
  by simp

end
